theory Spec2Isabelle
  imports Complex_Main
begin

section \<open>Python values shared by both modules\<close>

text \<open>
  Exceptions are values: a function of the source that can raise returns
  \<open>py_exception + 'a\<close>, with \<open>Inl\<close> for the raise.  \<open>KeyError\<close> and \<open>IndexError\<close>
  are the interpreter's own; \<open>AttributeError\<close> is what a method call on \<open>None\<close> raises;
  \<open>ValueError\<close> is raised by the service's constructor;
  \<open>LibraryError\<close> stands for any exception (a subclass of \<open>Exception\<close>) raised inside
  numpy, faiss or the OpenAI client, with its message.
\<close>

datatype py_exception =
    KeyError string
  | IndexError string
  | AttributeError string
  | ValueError string
  | LibraryError string

text \<open>The values a \<open>Dict[str, Any]\<close> of metadata holds.\<close>

datatype pyval = PyNone | PyBool bool | PyInt int | PyFloat real | PyStr string

type_synonym metadata = "string \<rightharpoonup> pyval"

text \<open>
  A chunk is a \<open>Dict[str, Any]\<close> read under three keys: \<open>chunk["chunk_id"]\<close>,
  \<open>chunk["text"]\<close> and \<open>chunk["similarity_score"]\<close>.  A field is \<open>None\<close> when the
  key is absent, so that the \<open>KeyError\<close> of a subscript is a branch of the model.
  Python floats are modelled as exact reals (rounding is not modelled), and a
  character of a string is one code point.
\<close>

record chunk =
  chunk_id :: "string option"
  text' :: "string option"
  similarity_score :: "real option"

type_synonym datetime = nat

section \<open>numpy arrays and the external index library\<close>

text \<open>
  An \<open>np.ndarray\<close> is an object: \<open>embeddings.copy()\<close> and \<open>.astype('float32')\<close> make
  new objects, \<open>faiss.normalize_L2\<close> overwrites the one it is given.  Arrays therefore
  live in a store, and a variable of the source holds a reference.
\<close>

record ndarray =
  shape :: "nat list"
  elems :: "real list"

type_synonym ref = nat

record np_store =
  arr :: "ref \<Rightarrow> ndarray"
  next_ref :: ref

definition np_alloc :: "np_store \<Rightarrow> ndarray \<Rightarrow> ref \<times> np_store" where
  "np_alloc h a = (next_ref h, h\<lparr>arr := (arr h)(next_ref h := a), next_ref := Suc (next_ref h)\<rparr>)"

definition np_copy :: "np_store \<Rightarrow> ref \<Rightarrow> ref \<times> np_store" where
  "np_copy h r = np_alloc h (arr h r)"

definition np_astype :: "(real \<Rightarrow> real) \<Rightarrow> np_store \<Rightarrow> ref \<Rightarrow> ref \<times> np_store" where
  "np_astype cast h r = np_alloc h ((arr h r)\<lparr>elems := map cast (elems (arr h r))\<rparr>)"

text \<open>\<open>shape[i]\<close> on the shape tuple: an index past its end raises.\<close>

definition shape_at :: "nat list \<Rightarrow> nat \<Rightarrow> py_exception + nat" where
  "shape_at s i = (if i < length s then Inr (s ! i) else Inl (IndexError ''tuple index out of range''))"

text \<open>
  faiss and the float32 cast are not code of this repository.  What \<open>VectorCache.set\<close>
  calls is a parameter: the rounding of a float to float32, the constructor
  \<open>faiss.IndexFlatIP(d)\<close>, \<open>faiss.normalize_L2(x)\<close> as the new contents of the array it
  overwrites, and \<open>index.add(x)\<close> as the index it leaves.  Each of the three calls may raise.
\<close>

record 'idx numeric_env =
  float32 :: "real \<Rightarrow> real"
  IndexFlatIP :: "nat \<Rightarrow> py_exception + 'idx"
  normalize_L2 :: "ndarray \<Rightarrow> py_exception + ndarray"
  index_add :: "'idx \<Rightarrow> ndarray \<Rightarrow> py_exception + 'idx"

text \<open>
  One such environment, over exact reals, used where a theorem is run on concrete
  input: a flat inner-product index keeps the rows it was given, normalisation divides
  each row of a 2-D array by its Euclidean norm (a zero row stays), and adding rows of
  another width than the index's is refused.
\<close>

record flat_index =
  dim :: nat
  stored :: "real list list"

fun rows_of :: "nat \<Rightarrow> nat \<Rightarrow> real list \<Rightarrow> real list list" where
  "rows_of 0 d xs = []"
| "rows_of (Suc n) d xs = take d xs # rows_of n d (drop d xs)"

definition normalize_row :: "real list \<Rightarrow> real list" where
  "normalize_row r =
     (let nr = sum_list (map (\<lambda>x. x * x) r)
      in if nr > 0 then map (\<lambda>x. x / sqrt nr) r else r)"

definition exact_normalize_L2 :: "ndarray \<Rightarrow> py_exception + ndarray" where
  "exact_normalize_L2 a =
     (case shape a of
        [n, d] \<Rightarrow> Inr (a\<lparr>elems := concat (map normalize_row (rows_of n d (elems a)))\<rparr>)
      | _ \<Rightarrow> Inl (LibraryError ''normalize_L2: not a matrix''))"

definition exact_index_add :: "flat_index \<Rightarrow> ndarray \<Rightarrow> py_exception + flat_index" where
  "exact_index_add ix a =
     (case shape a of
        [n, d] \<Rightarrow>
          if d = dim ix then Inr (ix\<lparr>stored := stored ix @ rows_of n d (elems a)\<rparr>)
          else Inl (LibraryError ''add: wrong dimension'')
      | _ \<Rightarrow> Inl (LibraryError ''add: not a matrix''))"

definition exact_env :: "flat_index numeric_env" where
  "exact_env =
     \<lparr>float32 = (\<lambda>x. x),
      IndexFlatIP = (\<lambda>d. Inr \<lparr>dim = d, stored = []\<rparr>),
      normalize_L2 = exact_normalize_L2,
      index_add = exact_index_add\<rparr>"

section \<open>vector\_cache.py: class VectorCache\<close>

text \<open>
  The dict literal \<open>set\<close> stores under a document id.  \<open>embeddings\<close> is the reference
  the caller passed; \<open>faiss_index\<close> is the index built from the normalised copy.
\<close>

record 'idx entry =
  embeddings :: ref
  chunks :: "chunk list"
  metadata :: metadata
  faiss_index :: 'idx
  cached_at :: datetime

text \<open>
  A value of the dict \<open>_cache\<close>, which is also what \<open>dict.get\<close> returns: \<open>None\<close> or an
  entry.  A Python dict can hold \<open>None\<close> under a key; that no method of the class stores
  one is a property of the methods, not of the type.
\<close>

datatype 'idx optional_entry = Py_None | Py_entry "'idx entry"

text \<open>
  The object's fields \<open>_cache\<close>, \<open>_initialized\<close> and \<open>_last_refresh\<close>.  Every method
  body runs under \<open>self._lock\<close>; a method is one state transition here.
\<close>

record 'idx vector_cache =
  cache :: "string \<rightharpoonup> 'idx optional_entry"
  initialized :: bool
  last_refresh :: "datetime option"

definition VectorCache :: "'idx vector_cache" where
  "VectorCache = \<lparr>cache = Map.empty, initialized = False, last_refresh = None\<rparr>"

definition is_cached :: "'idx vector_cache \<Rightarrow> string \<Rightarrow> bool" where
  "is_cached self document_id = (document_id \<in> dom (cache self))"

text \<open>\<open>self._cache.get(document_id)\<close>: the value stored under the key, \<open>None\<close> without the key.\<close>

definition get :: "'idx vector_cache \<Rightarrow> string \<Rightarrow> 'idx optional_entry" where
  "get self document_id =
     (case cache self document_id of None \<Rightarrow> Py_None | Some stored_value \<Rightarrow> stored_value)"

text \<open>
  \<open>set\<close>, line by line: \<open>embeddings.shape[1]\<close>, the index constructor, the copy and its
  float32 cast (two new arrays), the in-place normalisation of the cast copy,
  \<open>index.add\<close>, and only then the assignment to \<open>self._cache[document_id]\<close>, with
  \<open>datetime.now()\<close> passed as \<open>now\<close>.  An exception leaves through the \<open>with\<close> block
  with the store and the cache as they are at that line.  Nothing reads \<open>chunks\<close> or
  \<open>metadata\<close> before they are stored.  The log line after the assignment formats
  \<open>len(chunks)\<close> and \<open>embeddings.shape[0]\<close>, which exist once \<open>shape[1]\<close> did, and is
  not modelled.
\<close>

definition set_doc ::
  "'idx numeric_env \<Rightarrow> datetime \<Rightarrow> np_store \<Rightarrow> 'idx vector_cache \<Rightarrow> string \<Rightarrow> ref \<Rightarrow>
     chunk list \<Rightarrow> metadata \<Rightarrow> (py_exception + unit) \<times> np_store \<times> 'idx vector_cache" where
  "set_doc env now h self document_id embeddings' chunks' metadata' =
     (case shape_at (shape (arr h embeddings')) 1 of
        Inl e \<Rightarrow> (Inl e, h, self)
      | Inr dimension \<Rightarrow>
     (case IndexFlatIP env dimension of
        Inl e \<Rightarrow> (Inl e, h, self)
      | Inr index \<Rightarrow>
         (let (copied, h1) = np_copy h embeddings';
              (embeddings_normalized, h2) = np_astype (float32 env) h1 copied
          in case normalize_L2 env (arr h2 embeddings_normalized) of
               Inl e \<Rightarrow> (Inl e, h2, self)
             | Inr normalized \<Rightarrow>
                (let h3 = h2\<lparr>arr := (arr h2)(embeddings_normalized := normalized)\<rparr>
                 in case index_add env index (arr h3 embeddings_normalized) of
                      Inl e \<Rightarrow> (Inl e, h3, self)
                    | Inr index' \<Rightarrow>
                        (Inr (), h3,
                         self\<lparr>cache := (cache self)(document_id \<mapsto>
                            Py_entry
                              \<lparr>embeddings = embeddings', chunks = chunks', metadata = metadata',
                               faiss_index = index', cached_at = now\<rparr>)\<rparr>)))))"

definition remove :: "'idx vector_cache \<Rightarrow> string \<Rightarrow> bool \<times> 'idx vector_cache" where
  "remove self document_id =
     (if document_id \<in> dom (cache self)
      then (True, self\<lparr>cache := (cache self)(document_id := None)\<rparr>)
      else (False, self))"

definition clear :: "'idx vector_cache \<Rightarrow> 'idx vector_cache" where
  "clear self = self\<lparr>cache := Map.empty, initialized := False, last_refresh := None\<rparr>"

definition mark_initialized :: "datetime \<Rightarrow> 'idx vector_cache \<Rightarrow> 'idx vector_cache" where
  "mark_initialized now self = self\<lparr>initialized := True, last_refresh := Some now\<rparr>"

definition is_initialized :: "'idx vector_cache \<Rightarrow> bool" where
  "is_initialized self = initialized self"

text \<open>
  A call of a public method, and a run of calls from a program state (the array store
  and the cache object).  \<open>get\<close>, \<open>is_cached\<close> and \<open>is_initialized\<close> only read.
\<close>

datatype cache_call =
    Call_set datetime string ref "chunk list" metadata
  | Call_get string
  | Call_remove string
  | Call_clear
  | Call_mark_initialized datetime

fun call :: "'idx numeric_env \<Rightarrow> np_store \<times> 'idx vector_cache \<Rightarrow> cache_call \<Rightarrow>
    np_store \<times> 'idx vector_cache" where
  "call env (h, self) (Call_set now document_id embeddings' chunks' metadata') =
     snd (set_doc env now h self document_id embeddings' chunks' metadata')"
| "call env (h, self) (Call_get document_id) = (h, self)"
| "call env (h, self) (Call_remove document_id) = (h, snd (remove self document_id))"
| "call env (h, self) Call_clear = (h, clear self)"
| "call env (h, self) (Call_mark_initialized now) = (h, mark_initialized now self)"

definition run :: "'idx numeric_env \<Rightarrow> np_store \<Rightarrow> cache_call list \<Rightarrow> np_store \<times> 'idx vector_cache" where
  "run env h calls = foldl (call env) (h, VectorCache) calls"

text \<open>No key of the dict holds \<open>None\<close>.\<close>

definition entries_only :: "'idx vector_cache \<Rightarrow> bool" where
  "entries_only self = (\<forall>document_id. cache self document_id \<noteq> Some Py_None)"

section \<open>vector\_cache.py: get\_vector\_cache\<close>

text \<open>
  The module's globals: \<open>_vector_cache_instance\<close> (\<open>None\<close> or a reference to a
  \<open>VectorCache\<close> object) and the mutex \<open>_cache_lock\<close> (free, or held by a thread).
  \<open>constructed\<close> counts the objects \<open>VectorCache()\<close> has built in this process; the
  n-th object built has reference n.  Threads are numbered.  A thread inside
  \<open>get_vector_cache\<close> is at one of its lines; \<open>made\<close> is the object a thread's call of
  \<open>VectorCache()\<close> returned and has not yet assigned; \<open>returned\<close> lists, oldest first,
  the thread and the value of every \<open>return\<close> executed so far.
\<close>

datatype line =
    Outside
  | Outer_check
  | Acquire_lock
  | Inner_check
  | Construct
  | Assign
  | Release_lock
  | Return_instance

record process =
  vector_cache_instance :: "nat option"
  cache_lock :: "nat option"
  constructed :: nat
  at_line :: "nat \<Rightarrow> line"
  made :: "nat \<Rightarrow> nat"
  returned :: "(nat \<times> nat option) list"

definition process_start :: process where
  "process_start =
     \<lparr>vector_cache_instance = None, cache_lock = None, constructed = 0,
      at_line = (\<lambda>t. Outside), made = (\<lambda>t. 0), returned = []\<rparr>"

text \<open>
  One step of one thread \<open>t\<close>; every step reads or writes the globals at most once, so
  any schedule of the threads is a sequence of these steps.  A thread waiting for the
  mutex has no step while another thread holds it.
\<close>

inductive step :: "process \<Rightarrow> process \<Rightarrow> bool" where
  enter:
    "at_line s t = Outside \<Longrightarrow>
     step s (s\<lparr>at_line := (at_line s)(t := Outer_check)\<rparr>)"
| outer_none:
    "at_line s t = Outer_check \<Longrightarrow> vector_cache_instance s = None \<Longrightarrow>
     step s (s\<lparr>at_line := (at_line s)(t := Acquire_lock)\<rparr>)"
| outer_some:
    "at_line s t = Outer_check \<Longrightarrow> vector_cache_instance s \<noteq> None \<Longrightarrow>
     step s (s\<lparr>at_line := (at_line s)(t := Return_instance)\<rparr>)"
| acquire:
    "at_line s t = Acquire_lock \<Longrightarrow> cache_lock s = None \<Longrightarrow>
     step s (s\<lparr>cache_lock := Some t, at_line := (at_line s)(t := Inner_check)\<rparr>)"
| inner_none:
    "at_line s t = Inner_check \<Longrightarrow> vector_cache_instance s = None \<Longrightarrow>
     step s (s\<lparr>at_line := (at_line s)(t := Construct)\<rparr>)"
| inner_some:
    "at_line s t = Inner_check \<Longrightarrow> vector_cache_instance s \<noteq> None \<Longrightarrow>
     step s (s\<lparr>at_line := (at_line s)(t := Release_lock)\<rparr>)"
| construct:
    "at_line s t = Construct \<Longrightarrow>
     step s (s\<lparr>constructed := Suc (constructed s), made := (made s)(t := constructed s),
               at_line := (at_line s)(t := Assign)\<rparr>)"
| assign:
    "at_line s t = Assign \<Longrightarrow>
     step s (s\<lparr>vector_cache_instance := Some (made s t),
               at_line := (at_line s)(t := Release_lock)\<rparr>)"
| release:
    "at_line s t = Release_lock \<Longrightarrow>
     step s (s\<lparr>cache_lock := None, at_line := (at_line s)(t := Return_instance)\<rparr>)"
| return:
    "at_line s t = Return_instance \<Longrightarrow>
     step s (s\<lparr>returned := returned s @ [(t, vector_cache_instance s)],
               at_line := (at_line s)(t := Outside)\<rparr>)"

inductive reachable :: "process \<Rightarrow> bool" where
  start: "reachable process_start"
| next_step: "reachable s \<Longrightarrow> step s s' \<Longrightarrow> reachable s'"

text \<open>
  The function run by thread \<open>t\<close> with no other thread scheduled in between, from its
  call to its \<open>return\<close>: the value returned and the globals it leaves.
\<close>

definition get_vector_cache :: "nat \<Rightarrow> process \<Rightarrow> nat option \<times> process" where
  "get_vector_cache t s =
     (let s1 =
        (if vector_cache_instance s = None then
           (let s2 = s\<lparr>cache_lock := Some t\<rparr>;
                s3 = (if vector_cache_instance s2 = None then
                        s2\<lparr>constructed := Suc (constructed s2),
                           made := (made s2)(t := constructed s2),
                           vector_cache_instance := Some (constructed s2)\<rparr>
                      else s2)
            in s3\<lparr>cache_lock := None\<rparr>)
         else s)
      in (vector_cache_instance s1,
          s1\<lparr>returned := returned s1 @ [(t, vector_cache_instance s1)]\<rparr>))"

text \<open>
  What holds in every reachable state: a thread between the inner check and the release
  holds the mutex, the holder of the mutex is at one of these lines, and the globals
  have the values the holder's line implies.
\<close>

definition in_critical :: "line \<Rightarrow> bool" where
  "in_critical l = (l = Inner_check \<or> l = Construct \<or> l = Assign \<or> l = Release_lock)"

definition lock_inv :: "process \<Rightarrow> bool" where
  "lock_inv s = (\<forall>t. in_critical (at_line s t) \<longrightarrow> cache_lock s = Some t)"

definition holder_inv :: "process \<Rightarrow> bool" where
  "holder_inv s = (\<forall>h. cache_lock s = Some h \<longrightarrow> in_critical (at_line s h))"

definition holder_at :: "process \<Rightarrow> line \<Rightarrow> bool" where
  "holder_at s l = (case cache_lock s of None \<Rightarrow> False | Some t \<Rightarrow> at_line s t = l)"

definition value_inv :: "process \<Rightarrow> bool" where
  "value_inv s =
     ((vector_cache_instance s = None \<or> vector_cache_instance s = Some 0) \<and>
      (vector_cache_instance s = Some 0 \<longrightarrow> constructed s = 1) \<and>
      (vector_cache_instance s = None \<longrightarrow> constructed s = (if holder_at s Assign then 1 else 0)) \<and>
      (holder_at s Construct \<longrightarrow> vector_cache_instance s = None) \<and>
      (holder_at s Assign \<longrightarrow> vector_cache_instance s = None \<and> made s (the (cache_lock s)) = 0) \<and>
      (holder_at s Release_lock \<longrightarrow> vector_cache_instance s = Some 0))"

definition return_inv :: "process \<Rightarrow> bool" where
  "return_inv s =
     ((\<forall>t. at_line s t = Return_instance \<longrightarrow> vector_cache_instance s = Some 0) \<and>
      (\<forall>r \<in> set (returned s). snd r = Some 0) \<and>
      (returned s \<noteq> [] \<longrightarrow> vector_cache_instance s = Some 0))"

section \<open>azure\_openai\_service.py: class AzureOpenAIService\<close>

subsection \<open>Strings\<close>

text \<open>\<open>str(n)\<close> of a non-negative integer, as the f-string \<open>{i + 1}\<close> prints it.\<close>

fun str_nat :: "nat \<Rightarrow> string" where
  "str_nat n =
     (if n < 10 then [''0123456789'' ! n]
      else str_nat (n div 10) @ [''0123456789'' ! (n mod 10)])"

declare str_nat.simps [simp del]

text \<open>\<open>sep.join(parts)\<close>.\<close>

fun join :: "string \<Rightarrow> string list \<Rightarrow> string" where
  "join sep [] = []"
| "join sep [x] = x"
| "join sep (x # y # ys) = x @ sep @ join sep (y # ys)"

text \<open>\<open>str.strip()\<close>: the characters \<open>str.isspace\<close> accepts among the first 256 code points.\<close>

definition isspace :: "char \<Rightarrow> bool" where
  "isspace c = (of_char c \<in> {9, 10, 11, 12, 13, 28, 29, 30, 31, 32, 133, 160 :: nat})"

definition strip :: "string \<Rightarrow> string" where
  "strip s = rev (dropWhile isspace (rev (dropWhile isspace s)))"

text \<open>\<open>str(e)\<close> of a caught exception: a \<open>KeyError\<close> prints its key quoted.\<close>

fun exception_str :: "py_exception \<Rightarrow> string" where
  "exception_str (KeyError k) = [CHR 0x27] @ k @ [CHR 0x27]"
| "exception_str (IndexError m) = m"
| "exception_str (AttributeError m) = m"
| "exception_str (ValueError m) = m"
| "exception_str (LibraryError m) = m"

subsection \<open>The client\<close>

text \<open>
  \<open>self.client.chat.completions.create(...)\<close> is the external call.  It gets the keyword
  arguments of the source (\<open>None\<close> for one the call does not pass) and raises, or returns
  a response (\<open>None\<close> for a falsy one) whose \<open>choices\<close> are listed by their
  \<open>message.content\<close>, itself possibly \<open>None\<close>.  A service object holds the client, or
  \<open>None\<close>.  The requests sent are logged in the order of the calls, so that a theorem
  can say whether the client was called.
\<close>

record chat_request =
  model :: string
  messages :: "(string \<times> string) list"
  temperature :: real
  max_tokens :: int
  top_p :: "real option"
  frequency_penalty :: "real option"
  presence_penalty :: "real option"

record chat_completion =
  choices :: "string option list"

type_synonym chat_client = "chat_request \<Rightarrow> py_exception + chat_completion option"

record service =
  api_key :: string
  endpoint :: string
  api_version :: string
  deployment_name :: string
  client :: "chat_client option"
  model_name :: "string option"

subsection \<open>\_\_init\_\_ and \_initialize\_client\<close>

text \<open>
  Python's \<open>a or b\<close> on an optional string: \<open>a\<close> unless it is \<open>None\<close> or empty.
  \<open>os.getenv(name)\<close> reads the process environment \<open>environ\<close>; the constructor
  \<open>AzureOpenAI(api_key=..., api_version=..., azure_endpoint=...)\<close> is the parameter
  \<open>connect\<close>, which raises or returns the client.
\<close>

definition or_else :: "string option \<Rightarrow> string option \<Rightarrow> string option" where
  "or_else a b = (case a of None \<Rightarrow> b | Some v \<Rightarrow> if v = [] then b else Some v)"

definition or_default :: "string option \<Rightarrow> string \<Rightarrow> string" where
  "or_default a b = (case a of None \<Rightarrow> b | Some v \<Rightarrow> if v = [] then b else v)"

definition getenv :: "(string \<rightharpoonup> string) \<Rightarrow> string \<Rightarrow> string \<Rightarrow> string" where
  "getenv environ name fallback = (case environ name of None \<Rightarrow> fallback | Some v \<Rightarrow> v)"

text \<open>
  \<open>_initialize_client\<close>: the \<open>except\<close> branch resets the fields and raises again, so
  the constructor returns no object then.
\<close>

definition initialize_client ::
  "(string \<Rightarrow> string \<Rightarrow> string \<Rightarrow> py_exception + chat_client) \<Rightarrow> service \<Rightarrow> chat_request list \<Rightarrow>
     (py_exception + service) \<times> chat_request list" where
  "initialize_client connect self sent =
     (case connect (api_key self) (api_version self) (endpoint self) of
        Inl e \<Rightarrow> (Inl e, sent)
      | Inr create \<Rightarrow>
          (let request =
             \<lparr>model = deployment_name self, messages = [(''user'', ''Test'')],
              temperature = 0.1, max_tokens = 10,
              top_p = None, frequency_penalty = None, presence_penalty = None\<rparr>
           in case create request of
                Inl e \<Rightarrow> (Inl e, sent @ [request])
              | Inr test_response \<Rightarrow>
                  (Inr (self\<lparr>client := Some create,
                             model_name := (if test_response \<noteq> None
                                            then Some (deployment_name self) else None)\<rparr>),
                   sent @ [request])))"

definition AzureOpenAIService ::
  "(string \<Rightarrow> string \<Rightarrow> string \<Rightarrow> py_exception + chat_client) \<Rightarrow> (string \<rightharpoonup> string) \<Rightarrow>
     chat_request list \<Rightarrow> string option \<Rightarrow> string option \<Rightarrow> string option \<Rightarrow> string option \<Rightarrow>
     (py_exception + service) \<times> chat_request list" where
  "AzureOpenAIService connect environ sent api_key' endpoint' api_version' deployment_name' =
     (case or_else api_key' (environ ''AZURE_OPENAI_API_KEY'') of
        None \<Rightarrow> (Inl (ValueError ''AZURE_OPENAI_API_KEY environment variable is required''), sent)
      | Some k \<Rightarrow>
     (if k = [] then
        (Inl (ValueError ''AZURE_OPENAI_API_KEY environment variable is required''), sent)
      else
     (case or_else endpoint' (environ ''AZURE_OPENAI_ENDPOINT'') of
        None \<Rightarrow> (Inl (ValueError ''AZURE_OPENAI_ENDPOINT environment variable is required''), sent)
      | Some ep \<Rightarrow>
     (if ep = [] then
        (Inl (ValueError ''AZURE_OPENAI_ENDPOINT environment variable is required''), sent)
      else
        initialize_client connect
          \<lparr>api_key = k, endpoint = ep,
           api_version =
             or_default api_version' (getenv environ ''AZURE_OPENAI_API_VERSION'' ''2024-02-15-preview''),
           deployment_name =
             or_default deployment_name' (getenv environ ''AZURE_OPENAI_DEPLOYMENT_NAME'' ''gpt-4''),
           client = None, model_name = None\<rparr>
          sent))))"

subsection \<open>The result dictionaries\<close>

record source =
  source_chunk_id :: string
  source_similarity_score :: real
  preview :: string

text \<open>\<open>model_used\<close> is \<open>None\<close> where the dictionary has no such key.\<close>

record rag_result =
  answer :: string
  confidence :: real
  sources :: "source list"
  chunks_retrieved :: nat
  model_used :: "string option option"

subsection \<open>\_generate\_completion\<close>

definition generate_completion ::
  "service \<Rightarrow> chat_request list \<Rightarrow> string \<Rightarrow> string \<Rightarrow> real \<Rightarrow> int \<Rightarrow>
     (py_exception + string option) \<times> chat_request list" where
  "generate_completion self sent system_prompt user_prompt temperature' max_tokens' =
     (case client self of
        None \<Rightarrow>
          (Inl (AttributeError
             ([CHR 0x27] @ ''NoneType'' @ [CHR 0x27] @ '' object has no attribute '' @
              [CHR 0x27] @ ''chat'' @ [CHR 0x27])), sent)
      | Some create \<Rightarrow>
          (let request =
             \<lparr>model = deployment_name self,
              messages = [(''system'', system_prompt), (''user'', user_prompt)],
              temperature = temperature', max_tokens = max_tokens',
              top_p = Some 0.8, frequency_penalty = Some 0.0, presence_penalty = Some 0.0\<rparr>
           in case create request of
                Inl e \<Rightarrow> (Inl e, sent @ [request])
              | Inr response \<Rightarrow>
                  (case response of
                     None \<Rightarrow> (Inr None, sent @ [request])
                   | Some r \<Rightarrow>
                       (case choices r of
                          [] \<Rightarrow> (Inr None, sent @ [request])
                        | content # others \<Rightarrow> (Inr content, sent @ [request])))))"

subsection \<open>\_build\_context\<close>

text \<open>The f-string \<open>f"[Context {i + 1}]\n{chunk['text']}\n"\<close>, given \<open>i\<close> and the text.\<close>

definition context_entry :: "nat \<Rightarrow> string \<Rightarrow> string" where
  "context_entry i t = ''[Context '' @ str_nat (i + 1) @ '']\<newline>'' @ t @ ''\<newline>''"

text \<open>The same for a pair of \<open>enumerate(chunks)\<close> whose chunk has a text.\<close>

definition entry_of :: "nat \<times> chunk \<Rightarrow> string" where
  "entry_of ic = context_entry (fst ic) (the (text' (snd ic)))"

text \<open>
  The \<open>for\<close> loop over \<open>enumerate(chunks)\<close>, with \<open>context_parts\<close> and \<open>total_length\<close>
  as they stand before the iteration; \<open>break\<close> returns the parts collected so far.
\<close>

fun build_context_loop ::
  "int \<Rightarrow> (nat \<times> chunk) list \<Rightarrow> string list \<Rightarrow> int \<Rightarrow> py_exception + string list" where
  "build_context_loop max_length [] context_parts total_length = Inr context_parts"
| "build_context_loop max_length ((i, chunk) # rest) context_parts total_length =
     (case text' chunk of
        None \<Rightarrow> Inl (KeyError ''text'')
      | Some t \<Rightarrow>
          (let chunk_text = context_entry i t
           in if total_length + int (length chunk_text) > max_length then Inr context_parts
              else build_context_loop max_length rest (context_parts @ [chunk_text])
                     (total_length + int (length chunk_text))))"

definition build_context :: "chunk list \<Rightarrow> int \<Rightarrow> py_exception + string" where
  "build_context chunks' max_length =
     (case build_context_loop max_length (enumerate 0 chunks') [] 0 of
        Inl e \<Rightarrow> Inl e
      | Inr context_parts \<Rightarrow> Inr (join ''\<newline>'' context_parts))"

subsection \<open>\_create\_rag\_prompts\<close>

definition system_prompt_text :: string where
  "system_prompt_text =
     ''You are a helpful AI assistant who explains documents in a friendly, conversational way.\<newline>'' @
     ''\<newline>'' @
     ''    YOUR PERSONALITY:\<newline>'' @
     ''    - Talk naturally like a knowledgeable friend helping someone understand something\<newline>'' @
     ''    - Be warm, approachable, and patient\<newline>'' @
     ''    - Explain things clearly so anyone can understand, regardless of their background\<newline>'' @
     ''    - Use everyday language - avoid jargon unless necessary (then explain it)\<newline>'' @
     ''\<newline>'' @
     ''    RESPONSE FORMAT:\<newline>'' @
     ''    - Use Markdown to make your response easy to read and visually appealing\<newline>'' @
     ''    - Structure your answer logically with clear sections\<newline>'' @
     ''    - Use appropriate formatting:\<newline>'' @
     ''      * **Bold text** for key concepts or important terms\<newline>'' @
     ''      * '' @ [CHR 0x60] @ ''code formatting'' @ [CHR 0x60] @ '' for technical terms, file names, or specific values\<newline>'' @
     ''      * Bullet points for lists or multiple items\<newline>'' @
     ''      * Numbered lists for sequential steps or procedures\<newline>'' @
     ''      * > Blockquotes for tips, warnings, or important notes\<newline>'' @
     ''      * ### Subheadings to organize different aspects of your answer\<newline>'' @
     ''\<newline>'' @
     ''    HOW TO ANSWER:\<newline>'' @
     ''    - Start with a direct, clear answer to the question\<newline>'' @
     ''    - Then provide context and explanation to help them understand WHY\<newline>'' @
     ''    - If there are multiple aspects, break them down into digestible parts\<newline>'' @
     ''    - Use examples or analogies when helpful\<newline>'' @
     ''    - Connect information in a way that builds understanding\<newline>'' @
     ''    - End with a summary or key takeaway if the answer is complex\<newline>'' @
     ''\<newline>'' @
     ''    TONE GUIDELINES:\<newline>'' @
     ''    - Natural and conversational (like talking to a colleague over coffee)\<newline>'' @
     ''    - Professional but not stiff or overly formal\<newline>'' @
     ''    - Helpful and educational\<newline>'' @
     ''    - Confident but humble - if something isn'' @ [CHR 0x27] @ ''t in the document, say so clearly\<newline>'' @
     ''\<newline>'' @
     ''    WHAT TO AVOID:\<newline>'' @
     ''    - Don'' @ [CHR 0x27] @ ''t sound like you'' @ [CHR 0x27] @ ''re writing a textbook or essay\<newline>'' @
     ''    - Don'' @ [CHR 0x27] @ ''t use phrases like '' @ [CHR 0x22] @ ''according to the document'' @ [CHR 0x22] @ '' or '' @ [CHR 0x22] @ ''the context states'' @ [CHR 0x22] @ ''\<newline>'' @
     ''    - Don'' @ [CHR 0x27] @ ''t overwhelm with too much information at once\<newline>'' @
     ''    - Don'' @ [CHR 0x27] @ ''t make up information - only use what'' @ [CHR 0x27] @ ''s in the provided context\<newline>'' @
     ''\<newline>'' @
     ''    If the document doesn'' @ [CHR 0x27] @ ''t contain the answer, say something like:\<newline>'' @
     ''    '' @ [CHR 0x22] @ ''I don'' @ [CHR 0x27] @ ''t see information about that in this document. The document focuses on [what it does cover], but doesn'' @ [CHR 0x27] @ ''t mention [what they asked about].'' @ [CHR 0x22] @ ''\<newline>'' @
     ''    ''"

definition create_rag_prompts :: "string \<Rightarrow> string \<Rightarrow> string \<times> string" where
  "create_rag_prompts question context' =
     (system_prompt_text,
      ''Here'' @ [CHR 0x27] @ ''s the relevant information from the document:\<newline>\<newline>    '' @
      context' @ ''\<newline>\<newline>    ---\<newline>\<newline>    The user wants to know: **'' @
      question @ ''**\<newline>\<newline>    Please provide a helpful, well-formatted explanation that makes this easy to understand:'')"

subsection \<open>\_estimate\_confidence\<close>

definition weights :: "real list" where
  "weights = [1.0, 0.8, 0.6, 0.4, 0.2]"

text \<open>The weight of position \<open>i\<close>: \<open>weights[i] if i < len(weights) else 0.1\<close>.\<close>

definition weight_at :: "nat \<Rightarrow> real" where
  "weight_at i = (if i < length weights then weights ! i else 0.1)"

text \<open>
  The \<open>for\<close> loop over \<open>enumerate(chunks[:5])\<close>, with \<open>total_score\<close> and
  \<open>total_weight\<close> as they stand before the iteration.  Sums, products and the quotient
  are those of the reals: a theorem that runs the function on given scores uses scores
  on which the floating-point run is exact, and a lemma about all scores speaks of exact
  arithmetic.
\<close>

fun estimate_confidence_loop ::
  "(nat \<times> chunk) list \<Rightarrow> real \<Rightarrow> real \<Rightarrow> py_exception + real \<times> real" where
  "estimate_confidence_loop [] total_score total_weight = Inr (total_score, total_weight)"
| "estimate_confidence_loop ((i, chunk) # rest) total_score total_weight =
     (let weight = weight_at i
      in case similarity_score chunk of
           None \<Rightarrow> Inl (KeyError ''similarity_score'')
         | Some s \<Rightarrow>
             estimate_confidence_loop rest (total_score + s * weight) (total_weight + weight))"

definition estimate_confidence :: "chunk list \<Rightarrow> py_exception + real" where
  "estimate_confidence chunks' =
     (if chunks' = [] then Inr 0.0
      else case estimate_confidence_loop (enumerate 0 (take 5 chunks')) 0.0 0.0 of
             Inl e \<Rightarrow> Inl e
           | Inr (total_score, total_weight) \<Rightarrow>
               (let confidence' = (if total_weight > 0 then total_score / total_weight else 0.0)
                in Inr (min confidence' 1.0)))"

subsection \<open>generate\_rag\_answer\<close>

text \<open>
  The logging loop over \<open>relevant_chunks[:3]\<close> formats \<open>chunk['text'][:100]\<close>; its only
  effect on the control flow is the \<open>KeyError\<close> of a chunk without that key.
\<close>

fun log_top_chunks :: "chunk list \<Rightarrow> py_exception + unit" where
  "log_top_chunks [] = Inr ()"
| "log_top_chunks (chunk # rest) =
     (case text' chunk of
        None \<Rightarrow> Inl (KeyError ''text'')
      | Some t \<Rightarrow> log_top_chunks rest)"

text \<open>The list comprehension over \<open>relevant_chunks[:3]\<close> that builds \<open>sources\<close>.\<close>

fun extract_sources :: "chunk list \<Rightarrow> py_exception + source list" where
  "extract_sources [] = Inr []"
| "extract_sources (chunk # rest) =
     (case chunk_id chunk of
        None \<Rightarrow> Inl (KeyError ''chunk_id'')
      | Some cid \<Rightarrow>
     (case similarity_score chunk of
        None \<Rightarrow> Inl (KeyError ''similarity_score'')
      | Some s \<Rightarrow>
     (case text' chunk of
        None \<Rightarrow> Inl (KeyError ''text'')
      | Some t \<Rightarrow>
     (case extract_sources rest of
        Inl e \<Rightarrow> Inl e
      | Inr later \<Rightarrow>
          Inr (\<lparr>source_chunk_id = cid, source_similarity_score = s,
                preview = (if length t > 200 then take 200 t @ ''...'' else t)\<rparr> # later)))))"

text \<open>
  \<open>if response:\<close> on an optional string holds for a non-empty string; \<open>content_of\<close>
  is the string itself then.
\<close>

definition truthy :: "string option \<Rightarrow> bool" where
  "truthy response = (case response of None \<Rightarrow> False | Some content \<Rightarrow> content \<noteq> [])"

definition content_of :: "string option \<Rightarrow> string" where
  "content_of response = (case response of None \<Rightarrow> [] | Some content \<Rightarrow> content)"

text \<open>
  The body of the \<open>try\<close> block: what it returns, or the exception that leaves it, and
  the requests sent to the client by then.
\<close>

definition rag_answer_try ::
  "service \<Rightarrow> chat_request list \<Rightarrow> string \<Rightarrow> chunk list \<Rightarrow> string \<Rightarrow> real \<Rightarrow> int \<Rightarrow>
     (py_exception + rag_result) \<times> chat_request list" where
  "rag_answer_try self sent question relevant_chunks document_id temperature' max_tokens' =
     (if relevant_chunks = [] then
        (Inr \<lparr>answer = ''No relevant context found in the document to answer this question.'',
              confidence = 0.0, sources = [], chunks_retrieved = 0, model_used = None\<rparr>, sent)
      else
        (case log_top_chunks (take 3 relevant_chunks) of
           Inl e \<Rightarrow> (Inl e, sent)
         | Inr u \<Rightarrow>
        (case build_context relevant_chunks 10000 of
           Inl e \<Rightarrow> (Inl e, sent)
         | Inr context' \<Rightarrow>
        (let (system_prompt, user_prompt) = create_rag_prompts question context'
         in case generate_completion self sent system_prompt user_prompt temperature' max_tokens' of
              (Inl e, sent') \<Rightarrow> (Inl e, sent')
            | (Inr response, sent') \<Rightarrow>
                (if truthy response then
                   (case estimate_confidence relevant_chunks of
                      Inl e \<Rightarrow> (Inl e, sent')
                    | Inr confidence' \<Rightarrow>
                   (case extract_sources (take 3 relevant_chunks) of
                      Inl e \<Rightarrow> (Inl e, sent')
                    | Inr sources' \<Rightarrow>
                        (Inr \<lparr>answer = strip (content_of response), confidence = confidence',
                              sources = sources', chunks_retrieved = length relevant_chunks,
                              model_used = Some (model_name self)\<rparr>, sent')))
                 else
                   (Inr \<lparr>answer = ''Unable to generate response - empty response from Azure OpenAI'',
                         confidence = 0.0, sources = [],
                         chunks_retrieved = length relevant_chunks, model_used = None\<rparr>, sent'))))))"

text \<open>
  The whole method: the check of \<open>self.client\<close> before the \<open>try\<close>, and the
  \<open>except Exception\<close> handler around its body.  The result type still has a branch
  for an exception that leaves the method.
\<close>

definition generate_rag_answer ::
  "service \<Rightarrow> chat_request list \<Rightarrow> string \<Rightarrow> chunk list \<Rightarrow> string \<Rightarrow> real \<Rightarrow> int \<Rightarrow>
     (py_exception + rag_result) \<times> chat_request list" where
  "generate_rag_answer self sent question relevant_chunks document_id temperature' max_tokens' =
     (if client self = None then
        (Inr \<lparr>answer = ''Azure OpenAI service not available'', confidence = 0.0, sources = [],
              chunks_retrieved = 0, model_used = None\<rparr>, sent)
      else
        (case rag_answer_try self sent question relevant_chunks document_id temperature' max_tokens' of
           (Inr result, sent') \<Rightarrow> (Inr result, sent')
         | (Inl e, sent') \<Rightarrow>
             (Inr \<lparr>answer = ''Error generating answer: '' @ exception_str e, confidence = 0.0,
                   sources = [], chunks_retrieved = length relevant_chunks, model_used = None\<rparr>,
              sent')))"


section \<open>Concrete inputs\<close>

text \<open>
  A store with a 2 x 2 matrix at reference 0 and a one-dimensional array at every other
  reference, a chunk, the entry \<open>set\<close> builds from them, and a cache that holds it.
\<close>

definition example_store :: np_store where
  "example_store =
     \<lparr>arr = (\<lambda>r. if r = 0 then \<lparr>shape = [2, 2], elems = [2, 0, 0, 2]\<rparr>
                  else \<lparr>shape = [3], elems = [1, 2, 3]\<rparr>),
      next_ref = 2\<rparr>"

definition example_chunk :: chunk where
  "example_chunk =
     \<lparr>chunk_id = Some ''c0'', text' = Some ''the only chunk'', similarity_score = None\<rparr>"

definition example_entry :: "flat_index entry" where
  "example_entry =
     \<lparr>embeddings = 0, chunks = [example_chunk], metadata = [''title'' \<mapsto> PyStr ''report''],
      faiss_index = \<lparr>dim = 2, stored = [[1, 0], [0, 1]]\<rparr>, cached_at = 7\<rparr>"

definition example_cache :: "flat_index vector_cache" where
  "example_cache =
     \<lparr>cache = [''doc1'' \<mapsto> Py_entry example_entry], initialized = True, last_refresh = Some 8\<rparr>"

text \<open>A state of the object's type that no method produces: \<open>None\<close> stored under a key.\<close>

definition none_stored :: "flat_index vector_cache" where
  "none_stored = \<lparr>cache = [''doc1'' \<mapsto> Py_None], initialized = False, last_refresh = None\<rparr>"

text \<open>
  Chunks with only a text and with all three keys; a client that answers, one whose call
  raises and one whose answer has no content; an environment with the two required
  variables, and the service object the constructor builds from it around a client.
\<close>

definition worded :: "string \<Rightarrow> chunk" where
  "worded t = \<lparr>chunk_id = None, text' = Some t, similarity_score = None\<rparr>"

definition scored :: "real \<Rightarrow> chunk" where
  "scored x = \<lparr>chunk_id = Some ''c1'', text' = Some ''some text'', similarity_score = Some x\<rparr>"

definition answering_client :: chat_client where
  "answering_client = (\<lambda>request. Inr (Some \<lparr>choices = [Some ''  It is 42. '']\<rparr>))"



definition example_environ :: "string \<rightharpoonup> string" where
  "example_environ =
     [''AZURE_OPENAI_API_KEY'' \<mapsto> ''secret'',
      ''AZURE_OPENAI_ENDPOINT'' \<mapsto> ''https://example.test'']"

definition example_service :: "chat_client \<Rightarrow> service" where
  "example_service c =
     \<lparr>api_key = ''secret'', endpoint = ''https://example.test'',
      api_version = ''2024-02-15-preview'', deployment_name = ''gpt-4'',
      client = Some c, model_name = Some ''gpt-4''\<rparr>"

definition example_calls :: "cache_call list" where
  "example_calls =
     [Call_set 7 ''doc1'' 0 [example_chunk] Map.empty,
      Call_set 8 ''doc2'' 1 [] Map.empty,
      Call_mark_initialized 9,
      Call_get ''doc1'',
      Call_set 10 ''doc3'' 0 [] Map.empty,
      Call_remove ''doc1'']"

section \<open>Properties of VectorCache\<close>

lemma rows_of_numeral:
  "rows_of (numeral k) d xs = take d xs # rows_of (pred_numeral k) d (drop d xs)"
  by (simp add: numeral_eq_Suc)

lemmas exact_defs =
  set_doc_def exact_env_def example_store_def shape_at_def np_copy_def np_astype_def
  np_alloc_def exact_normalize_L2_def exact_index_add_def normalize_row_def Let_def

text \<open>
  \<open>set\<close> on the example store: two vectors, one chunk.  The copy is array 2, its
  normalised float32 cast is array 3, and the index holds the rows of array 3.
\<close>

lemma example_set:
  "set_doc exact_env 7 example_store VectorCache ''doc1'' 0 [example_chunk]
       [''title'' \<mapsto> PyStr ''report'']
     = (Inr (),
        \<lparr>arr = (arr example_store)
           (2 := \<lparr>shape = [2, 2], elems = [2, 0, 0, 2]\<rparr>,
            3 := \<lparr>shape = [2, 2], elems = [1, 0, 0, 1]\<rparr>),
         next_ref = 4\<rparr>,
        \<lparr>cache = [''doc1'' \<mapsto> Py_entry example_entry], initialized = False,
         last_refresh = None\<rparr>)"
  by (simp add: exact_defs VectorCache_def example_entry_def rows_of_numeral)





text \<open>
  C6.  After a \<open>set\<close> that returns, \<open>get\<close> of the same key gives an entry whose
  \<open>embeddings\<close> is the reference passed in and whose \<open>chunks\<close> and \<open>metadata\<close> are the
  arguments; every array that existed before the call, the caller's among them, has the
  contents it had: the normalisation wrote to a new array only.
\<close>

theorem set_then_get_roundtrip:
  assumes "set_doc env now h self document_id embeddings' chunks' metadata' = (Inr (), h', self')"
  shows "(\<exists>index. get self' document_id =
            Py_entry \<lparr>embeddings = embeddings', chunks = chunks', metadata = metadata',
                      faiss_index = index, cached_at = now\<rparr>) \<and>
         (\<forall>r. r < next_ref h \<longrightarrow> arr h' r = arr h r)"
  using assms
  by (auto simp: set_doc_def Let_def get_def np_copy_def np_astype_def np_alloc_def
      split: sum.splits prod.splits)

text \<open>
  The theorem on the example: the stored entry refers to array 0, which still holds
  \<open>[2, 0, 0, 2]\<close>, while the index holds the unit rows.
\<close>

theorem set_then_get_roundtrip_witness:
  "get (snd (snd (set_doc exact_env 7 example_store VectorCache ''doc1'' 0 [example_chunk]
          [''title'' \<mapsto> PyStr ''report''])))  ''doc1'' = Py_entry example_entry \<and>
   embeddings example_entry = 0 \<and>
   elems (arr (fst (snd (set_doc exact_env 7 example_store VectorCache ''doc1'' 0 [example_chunk]
          [''title'' \<mapsto> PyStr ''report'']))) 0) = [2, 0, 0, 2] \<and>
   stored (faiss_index example_entry) = [[1, 0], [0, 1]]"
  using set_then_get_roundtrip[OF example_set] example_set
  by (simp add: get_def example_entry_def example_store_def)

text \<open>
  In the exact environment every two-dimensional array is accepted, whatever the
  number of chunks.
\<close>

lemma set_doc_exact_matrix:
  "shape (arr h embeddings') = [n, d] \<Longrightarrow>
   fst (set_doc exact_env now h self document_id embeddings' chunks' metadata') = Inr ()"
  by (simp add: set_doc_def exact_env_def shape_at_def np_copy_def np_astype_def np_alloc_def
      exact_normalize_L2_def exact_index_add_def Let_def)

text \<open>
  C7.  After \<open>clear\<close> no id is cached, \<open>get\<close> finds nothing, the cache is not
  initialized and \<open>last_refresh\<close> is \<open>None\<close>.
\<close>

theorem clear_empties_cache:
  "\<not> is_cached (clear self) document_id \<and> get (clear self) document_id = Py_None \<and>
   \<not> is_initialized (clear self) \<and> last_refresh (clear self) = None"
  by (simp add: is_cached_def get_def clear_def is_initialized_def)

theorem clear_empties_cache_witness:
  "is_cached example_cache ''doc1'' \<and> is_initialized example_cache \<and>
   \<not> is_cached (clear example_cache) ''doc1'' \<and> get (clear example_cache) ''doc1'' = Py_None \<and>
   \<not> is_initialized (clear example_cache) \<and> last_refresh (clear example_cache) = None"
  using clear_empties_cache[of example_cache "''doc1''"]
  by (simp add: is_cached_def is_initialized_def example_cache_def)

text \<open>
  The methods keep \<open>None\<close> out of the dict: the constructor starts from the empty dict,
  \<open>set\<close> stores a dict literal or leaves the dict alone, \<open>remove\<close> deletes a key,
  \<open>clear\<close> empties the dict, and the other methods do not write to it.
\<close>

lemma entries_only_VectorCache: "entries_only VectorCache"
  by (simp add: entries_only_def VectorCache_def)

lemma entries_only_set_doc:
  assumes "entries_only self"
  shows "entries_only (snd (snd (set_doc env now h self document_id embeddings' chunks' metadata')))"
  using assms
  by (auto simp: set_doc_def entries_only_def Let_def split: sum.splits prod.splits)

lemma entries_only_remove: "entries_only self \<Longrightarrow> entries_only (snd (remove self document_id))"
  by (simp add: remove_def entries_only_def)

lemma entries_only_clear: "entries_only (clear self)"
  by (simp add: clear_def entries_only_def)

lemma entries_only_mark_initialized:
  "entries_only self \<Longrightarrow> entries_only (mark_initialized now self)"
  by (simp add: mark_initialized_def entries_only_def)

lemma entries_only_call:
  assumes "entries_only (snd state)"
  shows "entries_only (snd (call env state c))"
proof -
  obtain h self where state: "state = (h, self)" by (cases state)
  with assms have inv: "entries_only self" by simp
  show ?thesis
  proof (cases c)
    case (Call_set now document_id embeddings' chunks' metadata')
    with state entries_only_set_doc[OF inv] show ?thesis by simp
  next
    case (Call_get document_id)
    with state inv show ?thesis by simp
  next
    case (Call_remove document_id)
    with state entries_only_remove[OF inv] show ?thesis by simp
  next
    case Call_clear
    with state entries_only_clear show ?thesis by simp
  next
    case (Call_mark_initialized now)
    with state entries_only_mark_initialized[OF inv] show ?thesis by simp
  qed
qed

lemma entries_only_foldl:
  "entries_only (snd state) \<Longrightarrow> entries_only (snd (foldl (call env) state calls))"
proof (induction calls arbitrary: state)
  case Nil
  then show ?case by simp
next
  case (Cons c calls)
  from Cons.IH[OF entries_only_call[OF Cons.prems]] show ?case by simp
qed

lemma entries_only_run: "entries_only (snd (run env h calls))"
  unfolding run_def by (rule entries_only_foldl) (simp add: entries_only_VectorCache)

text \<open>
  In a state with \<open>None\<close> under a key the two methods disagree: the key is in the dict,
  and \<open>get\<close> returns \<open>None\<close>.  The equivalence of C10 is therefore a property of the
  states the methods reach.
\<close>

lemma is_cached_without_entry:
  "is_cached none_stored ''doc1'' \<and> get none_stored ''doc1'' = Py_None \<and>
   \<not> entries_only none_stored"
  by (auto simp: is_cached_def get_def none_stored_def entries_only_def)

text \<open>
  C10.  After any sequence of calls of \<open>set\<close>, \<open>get\<close>, \<open>remove\<close>, \<open>clear\<close> and
  \<open>mark_initialized\<close> on a new cache, \<open>is_cached\<close> holds of an id exactly when \<open>get\<close>
  returns an entry for it and not \<open>None\<close>.
\<close>

theorem is_cached_iff_get:
  "is_cached (snd (run env h calls)) document_id \<longleftrightarrow>
   get (snd (run env h calls)) document_id \<noteq> Py_None"
proof -
  have "cache (snd (run env h calls)) document_id \<noteq> Some Py_None"
    using entries_only_run[of env h calls] by (simp add: entries_only_def)
  then show ?thesis
    by (cases "cache (snd (run env h calls)) document_id") (auto simp: is_cached_def get_def)
qed

lemma example_run:
  "dom (cache (snd (run exact_env example_store example_calls))) = {''doc3''}"
  by (simp add: run_def example_calls_def exact_defs VectorCache_def remove_def
      mark_initialized_def rows_of_numeral dom_def)

text \<open>
  The theorem on a run in which \<open>doc1\<close> is set and removed, the \<open>set\<close> of \<open>doc2\<close>
  raises, and \<open>doc3\<close> is set.
\<close>

theorem is_cached_iff_get_witness:
  "is_cached (snd (run exact_env example_store example_calls)) ''doc3'' \<and>
   get (snd (run exact_env example_store example_calls)) ''doc3'' \<noteq> Py_None \<and>
   \<not> is_cached (snd (run exact_env example_store example_calls)) ''doc1'' \<and>
   get (snd (run exact_env example_store example_calls)) ''doc1'' = Py_None \<and>
   get (snd (run exact_env example_store example_calls)) ''doc2'' = Py_None"
  using is_cached_iff_get[of exact_env example_store example_calls "''doc3''"]
    is_cached_iff_get[of exact_env example_store example_calls "''doc1''"]
    is_cached_iff_get[of exact_env example_store example_calls "''doc2''"]
    example_run
  by (auto simp: is_cached_def)

section \<open>Properties of get\_vector\_cache\<close>

lemma lock_invD:
  "lock_inv s \<Longrightarrow> at_line s t = Inner_check \<Longrightarrow> cache_lock s = Some t"
  "lock_inv s \<Longrightarrow> at_line s t = Construct \<Longrightarrow> cache_lock s = Some t"
  "lock_inv s \<Longrightarrow> at_line s t = Assign \<Longrightarrow> cache_lock s = Some t"
  "lock_inv s \<Longrightarrow> at_line s t = Release_lock \<Longrightarrow> cache_lock s = Some t"
  by (simp_all add: lock_inv_def in_critical_def)

lemma lock_unique:
  "lock_inv s \<Longrightarrow> in_critical (at_line s t) \<Longrightarrow> in_critical (at_line s u) \<Longrightarrow> u = t"
  unfolding lock_inv_def by (metis option.inject)

lemma lock_inv_step:
  assumes "step s s'" and inv: "lock_inv s"
  shows "lock_inv s'"
  unfolding lock_inv_def
proof (intro allI impI)
  fix u
  assume crit: "in_critical (at_line s' u)"
  from assms(1) show "cache_lock s' = Some u"
  proof cases
    case (enter t)
    with crit inv show ?thesis
      by (auto simp: in_critical_def split: if_splits dest: lock_invD[OF inv])
  next
    case (outer_none t)
    with crit inv show ?thesis
      by (auto simp: in_critical_def split: if_splits dest: lock_invD[OF inv])
  next
    case (outer_some t)
    with crit inv show ?thesis
      by (auto simp: in_critical_def split: if_splits dest: lock_invD[OF inv])
  next
    case (acquire t)
    with crit inv show ?thesis
      by (auto simp: in_critical_def split: if_splits dest: lock_invD[OF inv])
  next
    case (inner_none t)
    with crit inv show ?thesis
      by (auto simp: in_critical_def split: if_splits dest: lock_invD[OF inv])
  next
    case (inner_some t)
    with crit inv show ?thesis
      by (auto simp: in_critical_def split: if_splits dest: lock_invD[OF inv])
  next
    case (construct t)
    with crit inv show ?thesis
      by (auto simp: in_critical_def split: if_splits dest: lock_invD[OF inv])
  next
    case (assign t)
    with crit inv show ?thesis
      by (auto simp: in_critical_def split: if_splits dest: lock_invD[OF inv])
  next
    case (release t)
    have "u \<noteq> t" using crit release by (auto simp: in_critical_def)
    then have "in_critical (at_line s u)" using crit release by simp
    moreover have "in_critical (at_line s t)" using release by (simp add: in_critical_def)
    ultimately have "u = t" using lock_unique[OF inv] by blast
    with \<open>u \<noteq> t\<close> show ?thesis by simp
  next
    case (return t)
    with crit inv show ?thesis
      by (auto simp: in_critical_def split: if_splits dest: lock_invD[OF inv])
  qed
qed

lemma holder_inv_step:
  assumes "step s s'" and inv: "holder_inv s"
  shows "holder_inv s'"
  unfolding holder_inv_def
proof (intro allI impI)
  fix h
  assume held: "cache_lock s' = Some h"
  from assms(1) show "in_critical (at_line s' h)"
  proof cases
    case (enter t)
    with held inv show ?thesis
      by (auto simp: holder_inv_def in_critical_def)
  next
    case (outer_none t)
    with held inv show ?thesis
      by (auto simp: holder_inv_def in_critical_def)
  next
    case (outer_some t)
    with held inv show ?thesis
      by (auto simp: holder_inv_def in_critical_def)
  next
    case (acquire t)
    with held inv show ?thesis
      by (auto simp: holder_inv_def in_critical_def)
  next
    case (inner_none t)
    with held inv show ?thesis
      by (auto simp: holder_inv_def in_critical_def)
  next
    case (inner_some t)
    with held inv show ?thesis
      by (auto simp: holder_inv_def in_critical_def)
  next
    case (construct t)
    with held inv show ?thesis
      by (auto simp: holder_inv_def in_critical_def)
  next
    case (assign t)
    with held inv show ?thesis
      by (auto simp: holder_inv_def in_critical_def)
  next
    case (release t)
    with held inv show ?thesis
      by (auto simp: holder_inv_def in_critical_def)
  next
    case (return t)
    with held inv show ?thesis
      by (auto simp: holder_inv_def in_critical_def)
  qed
qed

lemma value_inv_step:
  assumes st: "step s s'" and li: "lock_inv s" and hi: "holder_inv s" and vi: "value_inv s"
  shows "value_inv s'"
  using st
proof cases
  case (enter t)
  have lk: "cache_lock s \<noteq> Some t"
    using hi enter by (auto simp: holder_inv_def in_critical_def)
  from vi lk enter show ?thesis
    by (auto simp: value_inv_def holder_at_def split: option.splits if_splits)
next
  case (outer_none t)
  have lk: "cache_lock s \<noteq> Some t"
    using hi outer_none by (auto simp: holder_inv_def in_critical_def)
  from vi lk outer_none show ?thesis
    by (auto simp: value_inv_def holder_at_def split: option.splits if_splits)
next
  case (outer_some t)
  have lk: "cache_lock s \<noteq> Some t"
    using hi outer_some by (auto simp: holder_inv_def in_critical_def)
  from vi lk outer_some show ?thesis
    by (auto simp: value_inv_def holder_at_def split: option.splits if_splits)
next
  case (acquire t)
  have lk: "cache_lock s = None" using acquire by simp
  from vi lk acquire show ?thesis
    by (auto simp: value_inv_def holder_at_def split: option.splits if_splits)
next
  case (inner_none t)
  have lk: "cache_lock s = Some t" using li inner_none by (simp add: lock_invD)
  from vi lk inner_none show ?thesis
    by (auto simp: value_inv_def holder_at_def split: option.splits if_splits)
next
  case (inner_some t)
  have lk: "cache_lock s = Some t" using li inner_some by (simp add: lock_invD)
  from vi lk inner_some show ?thesis
    by (auto simp: value_inv_def holder_at_def split: option.splits if_splits)
next
  case (construct t)
  have lk: "cache_lock s = Some t" using li construct by (simp add: lock_invD)
  from vi lk construct show ?thesis
    by (auto simp: value_inv_def holder_at_def split: option.splits if_splits)
next
  case (assign t)
  have lk: "cache_lock s = Some t" using li assign by (simp add: lock_invD)
  from vi lk assign show ?thesis
    by (auto simp: value_inv_def holder_at_def split: option.splits if_splits)
next
  case (release t)
  have lk: "cache_lock s = Some t" using li release by (simp add: lock_invD)
  from vi lk release show ?thesis
    by (auto simp: value_inv_def holder_at_def split: option.splits if_splits)
next
  case (return t)
  have lk: "cache_lock s \<noteq> Some t"
    using hi return by (auto simp: holder_inv_def in_critical_def)
  from vi lk return show ?thesis
    by (auto simp: value_inv_def holder_at_def split: option.splits if_splits)
qed

lemma return_inv_step:
  assumes st: "step s s'" and li: "lock_inv s" and hi: "holder_inv s" and vi: "value_inv s"
    and ri: "return_inv s"
  shows "return_inv s'"
  using st
proof cases
  case (enter t)
  have lk: "cache_lock s \<noteq> Some t"
    using hi enter by (auto simp: holder_inv_def in_critical_def)
  from vi ri lk enter show ?thesis
    by (auto simp: return_inv_def value_inv_def holder_at_def
        split: option.splits if_splits)
next
  case (outer_none t)
  have lk: "cache_lock s \<noteq> Some t"
    using hi outer_none by (auto simp: holder_inv_def in_critical_def)
  from vi ri lk outer_none show ?thesis
    by (auto simp: return_inv_def value_inv_def holder_at_def
        split: option.splits if_splits)
next
  case (outer_some t)
  have lk: "cache_lock s \<noteq> Some t"
    using hi outer_some by (auto simp: holder_inv_def in_critical_def)
  from vi ri lk outer_some show ?thesis
    by (auto simp: return_inv_def value_inv_def holder_at_def
        split: option.splits if_splits)
next
  case (acquire t)
  have lk: "cache_lock s = None" using acquire by simp
  from vi ri lk acquire show ?thesis
    by (auto simp: return_inv_def value_inv_def holder_at_def
        split: option.splits if_splits)
next
  case (inner_none t)
  have lk: "cache_lock s = Some t" using li inner_none by (simp add: lock_invD)
  from vi ri lk inner_none show ?thesis
    by (auto simp: return_inv_def value_inv_def holder_at_def
        split: option.splits if_splits)
next
  case (inner_some t)
  have lk: "cache_lock s = Some t" using li inner_some by (simp add: lock_invD)
  from vi ri lk inner_some show ?thesis
    by (auto simp: return_inv_def value_inv_def holder_at_def
        split: option.splits if_splits)
next
  case (construct t)
  have lk: "cache_lock s = Some t" using li construct by (simp add: lock_invD)
  from vi ri lk construct show ?thesis
    by (auto simp: return_inv_def value_inv_def holder_at_def
        split: option.splits if_splits)
next
  case (assign t)
  have lk: "cache_lock s = Some t" using li assign by (simp add: lock_invD)
  from vi ri lk assign show ?thesis
    by (auto simp: return_inv_def value_inv_def holder_at_def
        split: option.splits if_splits)
next
  case (release t)
  have lk: "cache_lock s = Some t" using li release by (simp add: lock_invD)
  from vi ri lk release show ?thesis
    by (auto simp: return_inv_def value_inv_def holder_at_def
        split: option.splits if_splits)
next
  case (return t)
  have lk: "cache_lock s \<noteq> Some t"
    using hi return by (auto simp: holder_inv_def in_critical_def)
  from vi ri lk return show ?thesis
    by (auto simp: return_inv_def value_inv_def holder_at_def
        split: option.splits if_splits)
qed

lemma reachable_invs:
  "reachable s \<Longrightarrow> lock_inv s \<and> holder_inv s \<and> value_inv s \<and> return_inv s"
proof (induction rule: reachable.induct)
  case start
  show ?case
    by (simp add: lock_inv_def holder_inv_def value_inv_def return_inv_def holder_at_def
        in_critical_def process_start_def)
next
  case (next_step s s')
  then show ?case
    using lock_inv_step holder_inv_step value_inv_step return_inv_step by blast
qed

lemma value_inv_constructed: "value_inv s \<Longrightarrow> constructed s \<le> 1"
  by (auto simp: value_inv_def split: if_splits)

text \<open>The uninterrupted run of a call is a schedule of the steps.\<close>

lemma upd_back: "f t = v \<Longrightarrow> f(t := v) = f"
  by auto

lemma get_vector_cache_reachable:
  assumes r: "reachable s" and out: "at_line s t = Outside" and free: "cache_lock s = None"
  shows "reachable (snd (get_vector_cache t s))"
proof (cases "vector_cache_instance s")
  case None
  let ?a = "s\<lparr>at_line := (at_line s)(t := Outer_check)\<rparr>"
  let ?b = "?a\<lparr>at_line := (at_line ?a)(t := Acquire_lock)\<rparr>"
  let ?c = "?b\<lparr>cache_lock := Some t, at_line := (at_line ?b)(t := Inner_check)\<rparr>"
  let ?d = "?c\<lparr>at_line := (at_line ?c)(t := Construct)\<rparr>"
  let ?e = "?d\<lparr>constructed := Suc (constructed ?d), made := (made ?d)(t := constructed ?d),
               at_line := (at_line ?d)(t := Assign)\<rparr>"
  let ?f = "?e\<lparr>vector_cache_instance := Some (made ?e t),
               at_line := (at_line ?e)(t := Release_lock)\<rparr>"
  let ?g = "?f\<lparr>cache_lock := None, at_line := (at_line ?f)(t := Return_instance)\<rparr>"
  let ?h = "?g\<lparr>returned := returned ?g @ [(t, vector_cache_instance ?g)],
               at_line := (at_line ?g)(t := Outside)\<rparr>"
  have a: "reachable ?a" by (rule next_step[OF r]) (rule step.enter, rule out)
  have b: "reachable ?b" by (rule next_step[OF a]) (rule step.outer_none, simp_all add: None)
  have c: "reachable ?c" by (rule next_step[OF b]) (rule step.acquire, simp_all add: free)
  have d: "reachable ?d" by (rule next_step[OF c]) (rule step.inner_none, simp_all add: None)
  have e: "reachable ?e" by (rule next_step[OF d]) (rule step.construct, simp)
  have f: "reachable ?f" by (rule next_step[OF e]) (rule step.assign, simp)
  have g: "reachable ?g" by (rule next_step[OF f]) (rule step.release, simp)
  have h: "reachable ?h" by (rule next_step[OF g]) (rule step.return, simp)
  have "snd (get_vector_cache t s) = ?h"
    using None out free by (simp add: get_vector_cache_def Let_def upd_back)
  with h show ?thesis by simp
next
  case (Some v)
  let ?a = "s\<lparr>at_line := (at_line s)(t := Outer_check)\<rparr>"
  let ?b = "?a\<lparr>at_line := (at_line ?a)(t := Return_instance)\<rparr>"
  let ?h = "?b\<lparr>returned := returned ?b @ [(t, vector_cache_instance ?b)],
               at_line := (at_line ?b)(t := Outside)\<rparr>"
  have a: "reachable ?a" by (rule next_step[OF r]) (rule step.enter, rule out)
  have b: "reachable ?b" by (rule next_step[OF a]) (rule step.outer_some, simp_all add: Some)
  have h: "reachable ?h" by (rule next_step[OF b]) (rule step.return, simp)
  have "snd (get_vector_cache t s) = ?h"
    using Some out by (simp add: get_vector_cache_def Let_def upd_back)
  with h show ?thesis by simp
qed

lemma two_calls:
  "snd (get_vector_cache 1 (snd (get_vector_cache 0 process_start))) =
     \<lparr>vector_cache_instance = Some 0, cache_lock = None, constructed = 1,
      at_line = (\<lambda>t. Outside), made = (\<lambda>t. 0), returned = [(0, Some 0), (1, Some 0)]\<rparr>"
  by (simp add: get_vector_cache_def process_start_def Let_def upd_back)

lemma two_calls_reachable:
  "reachable (snd (get_vector_cache 1 (snd (get_vector_cache 0 process_start))))"
proof -
  have r0: "reachable (snd (get_vector_cache 0 process_start))"
    by (rule get_vector_cache_reachable[OF reachable.start]) (simp_all add: process_start_def)
  show ?thesis
    by (rule get_vector_cache_reachable[OF r0])
      (simp_all add: get_vector_cache_def process_start_def Let_def)
qed

text \<open>
  C9.  In every state the process can reach, under any schedule of any number of
  threads calling \<open>get_vector_cache\<close> any number of times: at most one \<open>VectorCache\<close>
  has been constructed, every call that has returned has returned a reference to the
  same object (the first one constructed), and once a call has returned, exactly one
  object has been constructed and the global refers to it.
\<close>

theorem get_vector_cache_singleton:
  assumes "reachable s"
  shows "constructed s \<le> 1 \<and>
         (\<forall>r \<in> set (returned s). snd r = Some 0) \<and>
         (returned s \<noteq> [] \<longrightarrow> vector_cache_instance s = Some 0 \<and> constructed s = 1)"
proof -
  from reachable_invs[OF assms] have v: "value_inv s" and r: "return_inv s" by simp_all
  show ?thesis
    using v r value_inv_constructed[OF v] by (auto simp: return_inv_def value_inv_def)
qed

text \<open>
  The theorem on the state after two calls in a row, by thread 0 and then by thread 1:
  the first call constructs the object, the second returns the same one.
\<close>

theorem get_vector_cache_singleton_witness:
  "reachable (snd (get_vector_cache 1 (snd (get_vector_cache 0 process_start)))) \<and>
   fst (get_vector_cache 0 process_start) = Some 0 \<and>
   fst (get_vector_cache 1 (snd (get_vector_cache 0 process_start))) = Some 0 \<and>
   constructed (snd (get_vector_cache 1 (snd (get_vector_cache 0 process_start)))) = 1 \<and>
   returned (snd (get_vector_cache 1 (snd (get_vector_cache 0 process_start))))
     = [(0, Some 0), (1, Some 0)]"
  using get_vector_cache_singleton[OF two_calls_reachable] two_calls_reachable two_calls
  by (simp add: get_vector_cache_def process_start_def Let_def)

section \<open>Properties of \_build\_context\<close>

lemma build_context_empty: "build_context [] max_length = Inr []"
  by (simp add: build_context_def)

lemma join_length:
  "length (join sep ps) = sum_list (map length ps) + length sep * (length ps - 1)"
  by (induction sep ps rule: join.induct) auto

lemma build_context_loop_parts:
  "build_context_loop m xs acc tot = Inr ps \<Longrightarrow>
   \<exists>k \<le> length xs.
      ps = acc @ map entry_of (take k xs) \<and>
      (\<forall>ic \<in> set (take k xs). text' (snd ic) \<noteq> None) \<and>
      (k > 0 \<longrightarrow> tot + int (sum_list (map length (map entry_of (take k xs)))) \<le> m) \<and>
      (k < length xs \<longrightarrow>
         text' (snd (xs ! k)) \<noteq> None \<and>
         tot + int (sum_list (map length (map entry_of (take k xs))))
           + int (length (entry_of (xs ! k))) > m)"
proof (induction m xs acc tot arbitrary: ps rule: build_context_loop.induct)
  case (1 m acc tot)
  then show ?case by simp
next
  case (2 m i chunk rest acc tot)
  show ?case
  proof (cases "text' chunk")
    case None
    with 2(2) show ?thesis by simp
  next
    case (Some t)
    show ?thesis
    proof (cases "tot + int (length (context_entry i t)) > m")
      case True
      with 2(2) Some have "ps = acc" by (simp add: Let_def)
      then show ?thesis using True Some by (intro exI[of _ 0]) (simp add: entry_of_def)
    next
      case False
      with 2(2) Some have rec: "build_context_loop m rest (acc @ [context_entry i t])
          (tot + int (length (context_entry i t))) = Inr ps" by (simp add: Let_def)
      from 2(1)[OF Some refl False rec] obtain k where k: "k \<le> length rest"
        "ps = (acc @ [context_entry i t]) @ map entry_of (take k rest)"
        "\<forall>ic \<in> set (take k rest). text' (snd ic) \<noteq> None"
        "k > 0 \<longrightarrow> tot + int (length (context_entry i t)) +
            int (sum_list (map length (map entry_of (take k rest)))) \<le> m"
        "k < length rest \<longrightarrow>
           text' (snd (rest ! k)) \<noteq> None \<and>
           tot + int (length (context_entry i t)) +
             int (sum_list (map length (map entry_of (take k rest))))
             + int (length (entry_of (rest ! k))) > m"
        by auto
      have e: "entry_of (i, chunk) = context_entry i t" using Some by (simp add: entry_of_def)
      show ?thesis
      proof (intro exI[of _ "Suc k"] conjI)
        show "Suc k \<le> length ((i, chunk) # rest)" using k(1) by simp
        show "ps = acc @ map entry_of (take (Suc k) ((i, chunk) # rest))" using k(2) e by simp
        show "\<forall>ic \<in> set (take (Suc k) ((i, chunk) # rest)). text' (snd ic) \<noteq> None"
          using k(3) Some by simp
        show "0 < Suc k \<longrightarrow> tot + int (sum_list (map length (map entry_of
            (take (Suc k) ((i, chunk) # rest))))) \<le> m"
          using k(4) False e by (cases k) auto
        show "Suc k < length ((i, chunk) # rest) \<longrightarrow>
           text' (snd (((i, chunk) # rest) ! Suc k)) \<noteq> None \<and>
           m < tot + int (sum_list (map length (map entry_of (take (Suc k) ((i, chunk) # rest)))))
             + int (length (entry_of (((i, chunk) # rest) ! Suc k)))"
          using k(5) e by auto
      qed
    qed
  qed
qed


text \<open>
  What does hold of the context: it is the join of the labelled texts of the first \<open>k\<close>
  chunks, whole and in order, each of which has a text; the lengths of these parts (the
  separators between them not counted) add up to at most \<open>max_length\<close>; and the loop
  stopped at the first chunk whose part would take that sum over \<open>max_length\<close>, or at
  the end of the list.
\<close>

lemma build_context_parts:
  assumes "build_context chunks' max_length = Inr s"
  shows "\<exists>k \<le> length chunks'.
           s = join ''\<newline>'' (map entry_of (take k (enumerate 0 chunks'))) \<and>
           (\<forall>c \<in> set (take k chunks'). text' c \<noteq> None) \<and>
           (k > 0 \<longrightarrow>
              int (sum_list (map length (map entry_of (take k (enumerate 0 chunks')))))
                \<le> max_length) \<and>
           (k < length chunks' \<longrightarrow>
              text' (chunks' ! k) \<noteq> None \<and>
              int (sum_list (map length (map entry_of (take k (enumerate 0 chunks')))))
                + int (length (context_entry k (the (text' (chunks' ! k))))) > max_length)"
proof -
  from assms obtain ps where ps: "build_context_loop max_length (enumerate 0 chunks') [] 0 = Inr ps"
    and s: "s = join ''\<newline>'' ps"
    by (auto simp: build_context_def split: sum.splits)
  from build_context_loop_parts[OF ps] obtain k where k: "k \<le> length chunks'"
    "ps = map entry_of (take k (enumerate 0 chunks'))"
    "\<forall>ic \<in> set (take k (enumerate 0 chunks')). text' (snd ic) \<noteq> None"
    "k > 0 \<longrightarrow> int (sum_list (map length (map entry_of (take k (enumerate 0 chunks'))))) \<le> max_length"
    "k < length chunks' \<longrightarrow>
       text' (snd (enumerate 0 chunks' ! k)) \<noteq> None \<and>
       int (sum_list (map length (map entry_of (take k (enumerate 0 chunks')))))
         + int (length (entry_of (enumerate 0 chunks' ! k))) > max_length"
    by auto
  have texts: "\<forall>c \<in> set (take k chunks'). text' c \<noteq> None"
  proof
    fix c assume "c \<in> set (take k chunks')"
    then have "c \<in> snd ` set (take k (enumerate 0 chunks'))"
      by (simp add: take_map[symmetric] flip: set_map)
    with k(3) show "text' c \<noteq> None" by auto
  qed
  have last: "k < length chunks' \<longrightarrow>
      text' (chunks' ! k) \<noteq> None \<and>
      int (sum_list (map length (map entry_of (take k (enumerate 0 chunks')))))
        + int (length (context_entry k (the (text' (chunks' ! k))))) > max_length"
    using k(5) by (auto simp: nth_enumerate_eq entry_of_def)
  show ?thesis using k(1) k(2) k(4) s texts last by blast
qed

text \<open>So the context is longer than \<open>max_length\<close> by less than the number of chunks.\<close>

lemma build_context_length:
  assumes "build_context chunks' max_length = Inr s" and "s \<noteq> []"
  shows "int (length s) < max_length + int (length chunks')"
proof -
  from build_context_parts[OF assms(1)] obtain k where k: "k \<le> length chunks'"
    "s = join ''\<newline>'' (map entry_of (take k (enumerate 0 chunks')))"
    "k > 0 \<longrightarrow> int (sum_list (map length (map entry_of (take k (enumerate 0 chunks')))))
       \<le> max_length"
    by blast
  have pos: "k > 0" using k(2) assms(2) by (cases k) auto
  have "length s = sum_list (map length (map entry_of (take k (enumerate 0 chunks')))) + (k - 1)"
    using k(1) by (simp add: k(2) join_length min_def)
  with k(1) k(3) pos show ?thesis by linarith
qed

text \<open>
  C2 fails on the code.  \<open>total_length\<close> counts the parts but not the newline that
  \<open>join\<close> puts between them: two one-letter chunks, whose parts have 14 characters
  each, both fit \<open>max_length = 28\<close> and give a context of 29 characters; two chunks of
  4987 characters give 10001 characters under the default \<open>max_length = 10000\<close>.
\<close>

theorem build_context_exceeds_max_length:
  "build_context [worded ''a'', worded ''b''] 28
     = Inr ''[Context 1]\<newline>a\<newline>\<newline>[Context 2]\<newline>b\<newline>'' \<and>
   length ''[Context 1]\<newline>a\<newline>\<newline>[Context 2]\<newline>b\<newline>'' = 29 \<and>
   (case build_context [worded (replicate 4987 CHR ''a''), worded (replicate 4987 CHR ''b'')] 10000 of
      Inl e \<Rightarrow> False
    | Inr s \<Rightarrow> length s = 10001)"
  by (simp add: build_context_def worded_def context_entry_def str_nat.simps)

section \<open>Properties of \_estimate\_confidence\<close>

lemma loop_scores:
  "estimate_confidence_loop xs ts tw = Inr r \<Longrightarrow> (i, c) \<in> set xs \<Longrightarrow> similarity_score c \<noteq> None"
  by (induction xs ts tw rule: estimate_confidence_loop.induct) (auto simp: Let_def split: option.splits)

lemma confidence_of_one: "similarity_score c1 = Some s1 \<Longrightarrow> estimate_confidence [c1] = Inr (min (s1 * 1.0 / 1.0) 1)"
  by (simp add: estimate_confidence_def weights_def weight_at_def)

lemma confidence_of_two: "similarity_score c1 = Some s1 \<Longrightarrow> similarity_score c2 = Some s2 \<Longrightarrow>
   estimate_confidence [c1, c2] = Inr (min ((s1 * 1.0 + s2 * 0.8) / (1.0 + 0.8)) 1)"
  by (simp add: estimate_confidence_def weights_def weight_at_def)

lemma confidence_of_three: "similarity_score c1 = Some s1 \<Longrightarrow> similarity_score c2 = Some s2 \<Longrightarrow> similarity_score c3 = Some s3 \<Longrightarrow>
   estimate_confidence [c1, c2, c3] = Inr (min ((s1 * 1.0 + s2 * 0.8 + s3 * 0.6) / (1.0 + 0.8 + 0.6)) 1)"
  by (simp add: estimate_confidence_def weights_def weight_at_def)

lemma confidence_of_four: "similarity_score c1 = Some s1 \<Longrightarrow> similarity_score c2 = Some s2 \<Longrightarrow> similarity_score c3 = Some s3 \<Longrightarrow>
   similarity_score c4 = Some s4 \<Longrightarrow>
   estimate_confidence [c1, c2, c3, c4] = Inr (min ((s1 * 1.0 + s2 * 0.8 + s3 * 0.6 + s4 * 0.4) / (1.0 + 0.8 + 0.6 + 0.4)) 1)"
  by (simp add: estimate_confidence_def weights_def weight_at_def)

lemma confidence_of_five: "similarity_score c1 = Some s1 \<Longrightarrow> similarity_score c2 = Some s2 \<Longrightarrow> similarity_score c3 = Some s3 \<Longrightarrow>
   similarity_score c4 = Some s4 \<Longrightarrow> similarity_score c5 = Some s5 \<Longrightarrow>
   estimate_confidence (c1 # c2 # c3 # c4 # c5 # rest) =
     Inr (min ((s1 * 1.0 + s2 * 0.8 + s3 * 0.6 + s4 * 0.4 + s5 * 0.2) / (1.0 + 0.8 + 0.6 + 0.4 + 0.2)) 1)"
  by (simp add: estimate_confidence_def weights_def weight_at_def)



lemma in_enumerate: "c \<in> set xs \<Longrightarrow> \<exists>i. (i, c) \<in> set (enumerate n xs)"
  by (induction xs arbitrary: n) auto

lemma conf_score_present:
  assumes "estimate_confidence cs = Inr a" "c \<in> set (take 5 cs)"
  shows "similarity_score c \<noteq> None"
proof -
  from assms(2) have ne: "cs \<noteq> []" by auto
  obtain i where "(i, c) \<in> set (enumerate 0 (take 5 cs))"
    using in_enumerate[OF assms(2)] by blast
  moreover from assms(1) ne obtain r where "estimate_confidence_loop (enumerate 0 (take 5 cs)) 0 0 = Inr r"
    by (auto simp: estimate_confidence_def split: sum.splits if_splits)
  ultimately show ?thesis using loop_scores by blast
qed

lemma min_one_mono: "x \<le> y \<Longrightarrow> min x 1 \<le> min y (1::real)"
  by (simp add: min_def)

lemma loop_total:
  "\<forall>(i, c) \<in> set xs. similarity_score c \<noteq> None \<Longrightarrow>
   estimate_confidence_loop xs ts tw =
     Inr (ts + (\<Sum>(i, c)\<leftarrow>xs. the (similarity_score c) * weight_at i),
          tw + (\<Sum>(i, c)\<leftarrow>xs. weight_at i))"
  by (induction xs ts tw rule: estimate_confidence_loop.induct) (auto simp: Let_def algebra_simps)

lemma weight_at_pos: "0 < weight_at i"
  by (auto simp: weight_at_def weights_def nth_Cons split: nat.splits)

lemma weight_sum_pos: "xs \<noteq> [] \<Longrightarrow> 0 < (\<Sum>(i, c)\<leftarrow>xs. weight_at i)"
proof (induction xs)
  case Nil then show ?case by simp
next
  case (Cons x xs)
  obtain i c where x: "x = (i, c)" by (cases x)
  have "0 \<le> (\<Sum>(i, c)\<leftarrow>xs. weight_at i)"
    by (rule sum_list_nonneg) (auto simp: less_imp_le[OF weight_at_pos])
  then show ?case using weight_at_pos[of i] x by simp
qed

lemma in_enumerate_snd: "(i, c) \<in> set (enumerate n xs) \<Longrightarrow> c \<in> set xs"
  by (auto simp: in_set_enumerate_eq)

lemma estimate_confidence_formula:
  assumes "cs \<noteq> []" and "\<forall>c \<in> set (take 5 cs). similarity_score c \<noteq> None"
  shows "estimate_confidence cs =
     Inr (min ((\<Sum>(i, c)\<leftarrow>enumerate 0 (take 5 cs). the (similarity_score c) * weight_at i) /
               (\<Sum>(i, c)\<leftarrow>enumerate 0 (take 5 cs). weight_at i)) 1)"
proof -
  have "\<forall>(i, c) \<in> set (enumerate 0 (take 5 cs)). similarity_score c \<noteq> None"
    using assms(2) in_enumerate_snd by fastforce
  from loop_total[OF this, of 0 0] have
    "estimate_confidence_loop (enumerate 0 (take 5 cs)) 0 0 =
       Inr ((\<Sum>(i, c)\<leftarrow>enumerate 0 (take 5 cs). the (similarity_score c) * weight_at i),
            (\<Sum>(i, c)\<leftarrow>enumerate 0 (take 5 cs). weight_at i))" by simp
  moreover have "0 < (\<Sum>(i, c)\<leftarrow>enumerate 0 (take 5 cs). weight_at i)"
    by (rule weight_sum_pos) (use assms(1) in \<open>cases cs; simp\<close>)
  ultimately show ?thesis using assms(1) by (simp add: estimate_confidence_def)
qed

lemma estimate_confidence_le_one: "estimate_confidence cs = Inr a \<Longrightarrow> a \<le> 1"
  by (auto simp: estimate_confidence_def Let_def split: if_splits sum.splits)

lemma estimate_confidence_empty: "estimate_confidence [] = Inr 0"
  by (simp add: estimate_confidence_def)

lemma estimate_confidence_nonneg:
  assumes "estimate_confidence cs = Inr a"
    and "\<forall>c \<in> set (take 5 cs). \<forall>x. similarity_score c = Some x \<longrightarrow> 0 \<le> x"
  shows "0 \<le> a"
proof (cases "cs = []")
  case True
  with assms(1) show ?thesis by (simp add: estimate_confidence_def)
next
  case False
  have present: "\<forall>c \<in> set (take 5 cs). similarity_score c \<noteq> None"
    using conf_score_present[OF assms(1)] by blast
  have "0 \<le> (\<Sum>(i, c)\<leftarrow>enumerate 0 (take 5 cs). the (similarity_score c) * weight_at i)"
  proof (rule sum_list_nonneg, clarsimp)
    fix i c assume ic: "(i, c) \<in> set (enumerate 0 (take 5 cs))"
    then have "c \<in> set (take 5 cs)" by (rule in_enumerate_snd)
    with present assms(2) have "0 \<le> the (similarity_score c)" by auto
    then show "0 \<le> the (similarity_score c) * weight_at i"
      using weight_at_pos[of i] by simp
  qed
  moreover have "0 < (\<Sum>(i, c)\<leftarrow>enumerate 0 (take 5 cs). weight_at i)"
    by (rule weight_sum_pos) (use False in \<open>cases cs; simp\<close>)
  ultimately have "0 \<le> (\<Sum>(i, c)\<leftarrow>enumerate 0 (take 5 cs). the (similarity_score c) * weight_at i) /
               (\<Sum>(i, c)\<leftarrow>enumerate 0 (take 5 cs). weight_at i)"
    by (simp add: divide_nonneg_pos)
  then show ?thesis
    using assms(1) estimate_confidence_formula[OF False present] by (auto simp: min_def)
qed

lemma estimate_confidence_first_five:
  "5 \<le> length cs \<Longrightarrow> estimate_confidence (cs @ later) = estimate_confidence cs"
  by (cases cs) (simp_all add: estimate_confidence_def)


text \<open>
  In exact arithmetic, prepending a chunk that scores at least as high as every chunk of
  a non-empty list does not lower the estimate.  This is a fact about the reals of the
  model only: in binary floating point the quotient is rounded, and the estimate can
  come out lower by a rounding error (scores 0.7 and 0.7 give 0.6999999999999998 where
  the score 0.7 alone gives 0.7).
\<close>

lemma estimate_confidence_prepend_nonempty:
  assumes ne: "cs \<noteq> []"
    and a: "estimate_confidence cs = Inr a"
    and b: "estimate_confidence (c # cs) = Inr b"
    and s0: "similarity_score c = Some s0"
    and top: "\<forall>x \<in> set cs. \<forall>s. similarity_score x = Some s \<longrightarrow> s \<le> s0"
  shows "a \<le> b"
proof -
  obtain c1 r1 where cs: "cs = c1 # r1" using ne by (cases cs) auto
  obtain s1 where s1: "similarity_score c1 = Some s1" using conf_score_present[OF a, of c1] cs by auto
  have l1: "s1 \<le> s0" using top s1 cs by auto
  show ?thesis
  proof (cases r1)
    case Nil
    have "a = min (s1 * 1.0 / 1.0) 1" using a cs Nil confidence_of_one[OF s1] by simp
    moreover have "b = min ((s0 * 1.0 + s1 * 0.8) / (1.0 + 0.8)) 1" using b cs Nil confidence_of_two[OF s0 s1] by simp
    moreover have "s1 * 1.0 / 1.0 \<le> (s0 * 1.0 + s1 * 0.8) / (1.0 + 0.8)" using l1 by (simp add: field_simps)
    ultimately show ?thesis using min_one_mono by blast
  next
    case (Cons c2 r2)
    obtain s2 where s2: "similarity_score c2 = Some s2" using conf_score_present[OF a, of c2] cs Cons by auto
    have l2: "s2 \<le> s0" using top s2 cs Cons by auto
    show ?thesis
    proof (cases r2)
      case Nil
      have "a = min ((s1 * 1.0 + s2 * 0.8) / (1.0 + 0.8)) 1" using a cs Cons Nil confidence_of_two[OF s1 s2] by simp
      moreover have "b = min ((s0 * 1.0 + s1 * 0.8 + s2 * 0.6) / (1.0 + 0.8 + 0.6)) 1"
        using b cs Cons Nil confidence_of_three[OF s0 s1 s2] by simp
      moreover have "(s1 * 1.0 + s2 * 0.8) / (1.0 + 0.8) \<le> (s0 * 1.0 + s1 * 0.8 + s2 * 0.6) / (1.0 + 0.8 + 0.6)"
        using l1 l2 by (simp add: field_simps)
      ultimately show ?thesis using min_one_mono by blast
    next
      case c3: (Cons c3 r3)
      obtain s3 where s3: "similarity_score c3 = Some s3" using conf_score_present[OF a, of c3] cs Cons c3 by auto
      have l3: "s3 \<le> s0" using top s3 cs Cons c3 by auto
      show ?thesis
      proof (cases r3)
        case Nil
        have "a = min ((s1 * 1.0 + s2 * 0.8 + s3 * 0.6) / (1.0 + 0.8 + 0.6)) 1"
          using a cs Cons c3 Nil confidence_of_three[OF s1 s2 s3] by simp
        moreover have "b = min ((s0 * 1.0 + s1 * 0.8 + s2 * 0.6 + s3 * 0.4) / (1.0 + 0.8 + 0.6 + 0.4)) 1"
          using b cs Cons c3 Nil confidence_of_four[OF s0 s1 s2 s3] by simp
        moreover have "(s1 * 1.0 + s2 * 0.8 + s3 * 0.6) / (1.0 + 0.8 + 0.6)
            \<le> (s0 * 1.0 + s1 * 0.8 + s2 * 0.6 + s3 * 0.4) / (1.0 + 0.8 + 0.6 + 0.4)"
          using l1 l2 l3 by (simp add: field_simps)
        ultimately show ?thesis using min_one_mono by blast
      next
        case c4: (Cons c4 r4)
        obtain s4 where s4: "similarity_score c4 = Some s4"
          using conf_score_present[OF a, of c4] cs Cons c3 c4 by auto
        have l4: "s4 \<le> s0" using top s4 cs Cons c3 c4 by auto
        show ?thesis
        proof (cases r4)
          case Nil
          have "a = min ((s1 * 1.0 + s2 * 0.8 + s3 * 0.6 + s4 * 0.4) / (1.0 + 0.8 + 0.6 + 0.4)) 1"
            using a cs Cons c3 c4 Nil confidence_of_four[OF s1 s2 s3 s4] by simp
          moreover have "b = min ((s0 * 1.0 + s1 * 0.8 + s2 * 0.6 + s3 * 0.4 + s4 * 0.2) / (1.0 + 0.8 + 0.6 + 0.4 + 0.2)) 1"
            using b cs Cons c3 c4 Nil confidence_of_five[OF s0 s1 s2 s3 s4, of "[]"] by simp
          moreover have "(s1 * 1.0 + s2 * 0.8 + s3 * 0.6 + s4 * 0.4) / (1.0 + 0.8 + 0.6 + 0.4)
              \<le> (s0 * 1.0 + s1 * 0.8 + s2 * 0.6 + s3 * 0.4 + s4 * 0.2) / (1.0 + 0.8 + 0.6 + 0.4 + 0.2)"
            using l1 l2 l3 l4 by (simp add: field_simps)
          ultimately show ?thesis using min_one_mono by blast
        next
          case c5: (Cons c5 r5)
          obtain s5 where s5: "similarity_score c5 = Some s5"
            using conf_score_present[OF a, of c5] cs Cons c3 c4 c5 by auto
          have l5: "s5 \<le> s0" using top s5 cs Cons c3 c4 c5 by auto
          have "a = min ((s1 * 1.0 + s2 * 0.8 + s3 * 0.6 + s4 * 0.4 + s5 * 0.2) / (1.0 + 0.8 + 0.6 + 0.4 + 0.2)) 1"
            using a cs Cons c3 c4 c5 confidence_of_five[OF s1 s2 s3 s4 s5, of r5] by simp
          moreover have "b = min ((s0 * 1.0 + s1 * 0.8 + s2 * 0.6 + s3 * 0.4 + s4 * 0.2) / (1.0 + 0.8 + 0.6 + 0.4 + 0.2)) 1"
            using b cs Cons c3 c4 c5 confidence_of_five[OF s0 s1 s2 s3 s4, of "c5 # r5"] by simp
          moreover have "(s1 * 1.0 + s2 * 0.8 + s3 * 0.6 + s4 * 0.4 + s5 * 0.2) / (1.0 + 0.8 + 0.6 + 0.4 + 0.2)
              \<le> (s0 * 1.0 + s1 * 0.8 + s2 * 0.6 + s3 * 0.4 + s4 * 0.2) / (1.0 + 0.8 + 0.6 + 0.4 + 0.2)"
            using l1 l2 l3 l4 l5 by (simp add: field_simps)
          ultimately show ?thesis using min_one_mono by blast
        qed
      qed
    qed
  qed
qed



text \<open>
  From the empty list the estimate of one chunk is its score, clamped from above only;
  it is not below the empty list's 0 when the score is not negative.
\<close>

lemma estimate_confidence_prepend_empty:
  "similarity_score c = Some s0 \<Longrightarrow> 0 \<le> s0 \<Longrightarrow>
   estimate_confidence [c] = Inr (min s0 1) \<and> 0 \<le> min s0 1"
  by (simp add: confidence_of_one)

text \<open>
  C3 fails on the code.  The docstring promises a score between 0 and 1, and the code
  bounds it from above only: one chunk with similarity -0.5 gives the confidence -0.5.
\<close>

theorem estimate_confidence_negative:
  "estimate_confidence [scored (- 0.5)] = Inr (- 0.5) \<and> (- 0.5 :: real) < 0"
  by (simp add: confidence_of_one scored_def)

text \<open>
  C4 fails on the code, by the same missing lower bound: the chunk with similarity -0.5
  scores at least as high as every chunk of the empty list, and prepending it lowers the
  confidence from 0 to -0.5.
\<close>

theorem estimate_confidence_prepend_decreases:
  "estimate_confidence [] = Inr 0 \<and>
   estimate_confidence (scored (- 0.5) # []) = Inr (- 0.5) \<and>
   (- 0.5 :: real) < 0"
  by (simp add: confidence_of_one scored_def estimate_confidence_empty)

section \<open>Properties of generate\_rag\_answer\<close>

lemmas rag_defs =
  generate_rag_answer_def rag_answer_try_def generate_completion_def build_context_def
  context_entry_def create_rag_prompts_def scored_def example_service_def str_nat.simps
  estimate_confidence_def weight_at_def weights_def truthy_def content_of_def Let_def

text \<open>The constructor on the example environment, and three calls with one chunk.\<close>

lemma example_constructed:
  "AzureOpenAIService (\<lambda>k v e. Inr answering_client) example_environ [] None None None None
     = (Inr (example_service answering_client),
        [\<lparr>model = ''gpt-4'', messages = [(''user'', ''Test'')], temperature = 0.1, max_tokens = 10,
          top_p = None, frequency_penalty = None, presence_penalty = None\<rparr>])"
  by (simp add: AzureOpenAIService_def initialize_client_def or_else_def or_default_def getenv_def
      example_environ_def example_service_def answering_client_def Let_def)

lemma example_answering:
  "fst (generate_rag_answer (example_service answering_client) [] ''What is it?'' [scored 0.9]
          ''doc1'' 0.3 500)
     = Inr \<lparr>answer = ''It is 42.'', confidence = 0.9,
            sources = [\<lparr>source_chunk_id = ''c1'', source_similarity_score = 0.9,
                        preview = ''some text''\<rparr>],
            chunks_retrieved = 1, model_used = Some (Some ''gpt-4'')\<rparr> \<and>
   length (snd (generate_rag_answer (example_service answering_client) [] ''What is it?''
          [scored 0.9] ''doc1'' 0.3 500)) = 1"
  by (simp add: rag_defs answering_client_def strip_def isspace_def)



text \<open>An object the constructor returns has a client.\<close>

lemma constructed_has_client:
  "AzureOpenAIService connect environ sent0 k e v d = (Inr self, sent1) \<Longrightarrow> client self \<noteq> None"
  by (auto simp: AzureOpenAIService_def initialize_client_def Let_def
      split: option.splits if_splits sum.splits)

lemma generate_rag_answer_empty:
  "generate_rag_answer self sent question [] document_id temperature' max_tokens' =
     (Inr \<lparr>answer = (if client self = None then ''Azure OpenAI service not available''
                      else ''No relevant context found in the document to answer this question.''),
           confidence = 0, sources = [], chunks_retrieved = 0, model_used = None\<rparr>, sent)"
  by (simp add: generate_rag_answer_def rag_answer_try_def)

text \<open>
  C5.  For a service object the constructor has returned and an empty list of chunks,
  the method returns the fixed result with the "No relevant context" answer, confidence
  0.0, no sources and 0 chunks retrieved, and the log of requests sent to the client is
  the one before the call: the client was not called.
\<close>

theorem no_context_skips_completion:
  assumes "AzureOpenAIService connect environ sent0 k e v d = (Inr self, sent1)"
  shows "generate_rag_answer self sent question [] document_id temperature' max_tokens' =
     (Inr \<lparr>answer = ''No relevant context found in the document to answer this question.'',
           confidence = 0, sources = [], chunks_retrieved = 0, model_used = None\<rparr>, sent)"
  using constructed_has_client[OF assms] by (simp add: generate_rag_answer_empty)

text \<open>
  The theorem on the example service; the same service does call the client when there
  is a chunk (\<open>example_answering\<close>).
\<close>

theorem no_context_skips_completion_witness:
  "generate_rag_answer (example_service answering_client) [] ''What is it?'' [] ''doc1'' 0.3 500 =
     (Inr \<lparr>answer = ''No relevant context found in the document to answer this question.'',
           confidence = 0, sources = [], chunks_retrieved = 0, model_used = None\<rparr>, [])"
  using no_context_skips_completion[OF example_constructed] by simp








end
